theory Spec2Isabelle
  imports Main "HOL-Library.Sublist"
begin

section \<open>JavaScript strings and arrays\<close>

text \<open>
  A text is the list of its code units; offsets, lines and columns are JavaScript numbers
  that hold integers, modelled as \<open>int\<close>.  Reading an array or a string out of range
  gives \<open>undefined\<close> in JavaScript and \<open>None\<close> here.
\<close>

definition js_nth :: "'a list \<Rightarrow> int \<Rightarrow> 'a option" where
  "js_nth xs i = (if 0 \<le> i \<and> i < int (length xs) then Some (xs ! nat i) else None)"

text \<open>
  \<open>String.prototype.substring\<close>: both arguments are brought into the range of the text,
  and swapped when the first is larger than the second.
\<close>

definition substring :: "string \<Rightarrow> int \<Rightarrow> int \<Rightarrow> string" where
  "substring s a b =
     (let n = int (length s);
          a' = max 0 (min a n);
          b' = max 0 (min b n);
          lo = min a' b';
          hi = max a' b'
      in take (nat (hi - lo)) (drop (nat lo) s))"

section \<open>Position and offset utilities\<close>

record Position =
  line :: int
  character :: int

text \<open>
  Modelled from the spec: \<open>clamp\<close> is imported from the \<open>utils\<close> module, which is not
  among the source files; it brings a number into the range between \<open>min\<close> and \<open>max\<close>
  (the spec: offsets are clamped into \<open>[0, length(T)]\<close>).
\<close>

definition clamp :: "int \<Rightarrow> int \<Rightarrow> int \<Rightarrow> int" where
  "clamp num mn mx = max mn (min mx num)"

definition CR :: char where "CR = CHR 0x0D"
definition LF :: char where "LF = CHR 0x0A"

text \<open>
  \<open>getLineOffsets\<close>: the \<open>for\<close> loop over the index \<open>i\<close>, with the flag \<open>isLineStart\<close>
  and the array built so far; a carriage return followed by a line feed is skipped as one
  line end.  The loop returns the flag with the array, for the test that follows it.
\<close>

function getLineOffsets_loop :: "string \<Rightarrow> nat \<Rightarrow> bool \<Rightarrow> int list \<Rightarrow> bool \<times> int list" where
  "getLineOffsets_loop text i isLineStart lineOffsets =
     (if i < length text then
        (let lineOffsets' = (if isLineStart then lineOffsets @ [int i] else lineOffsets);
             ch = text ! i;
             isLineStart' = (ch = CR \<or> ch = LF);
             i' = (if ch = CR \<and> i + 1 < length text \<and> text ! (i + 1) = LF then i + 1 else i)
         in getLineOffsets_loop text (i' + 1) isLineStart' lineOffsets')
      else (isLineStart, lineOffsets))"
  by pat_completeness auto
termination
  by (relation "measure (\<lambda>(text, i, isLineStart, lineOffsets). length text - i)") auto

declare getLineOffsets_loop.simps [simp del]

definition getLineOffsets :: "string \<Rightarrow> int list" where
  "getLineOffsets text =
     (case getLineOffsets_loop text 0 True [] of
        (isLineStart, lineOffsets) \<Rightarrow>
          if isLineStart \<and> length text > 0 then lineOffsets @ [int (length text)]
          else lineOffsets)"

text \<open>
  \<open>positionAt\<close>: the binary search over the line offsets.  \<open>mid\<close> can be the length of
  the array; the read is then \<open>undefined\<close>, both comparisons are false and the search goes
  on below \<open>mid\<close>.  After the loop the line is \<open>low - 1\<close>; were that read out of range the
  character would not be a number, which is the result \<open>None\<close>.
\<close>

function positionAt_search :: "int list \<Rightarrow> int \<Rightarrow> int \<Rightarrow> int \<Rightarrow> Position option" where
  "positionAt_search lineOffsets offset low high =
     (if low \<le> high then
        (let mid = (low + high) div 2 in
         case js_nth lineOffsets mid of
           Some lineOffset \<Rightarrow>
             if lineOffset = offset then Some \<lparr>line = mid, character = 0\<rparr>
             else if offset > lineOffset then positionAt_search lineOffsets offset (mid + 1) high
             else positionAt_search lineOffsets offset low (mid - 1)
         | None \<Rightarrow> positionAt_search lineOffsets offset low (mid - 1))
      else
        (let ln = low - 1 in
         case js_nth lineOffsets ln of
           Some lineOffset \<Rightarrow> Some \<lparr>line = ln, character = offset - lineOffset\<rparr>
         | None \<Rightarrow> None))"
  by pat_completeness auto
termination
  by (relation "measure (\<lambda>(lineOffsets, offset, low, high). nat (high - low + 1))") auto

declare positionAt_search.simps [simp del]

definition positionAt :: "int \<Rightarrow> string \<Rightarrow> int list \<Rightarrow> Position option" where
  "positionAt offset text lineOffsets =
     (let offset' = clamp offset 0 (int (length text));
          high = int (length lineOffsets)
      in if high = 0 then Some \<lparr>line = 0, character = offset'\<rparr>
         else positionAt_search lineOffsets offset' 0 high)"

definition offsetAt :: "Position \<Rightarrow> string \<Rightarrow> int list \<Rightarrow> int" where
  "offsetAt position text lineOffsets =
     (if line position \<ge> int (length lineOffsets) then int (length text)
      else if line position < 0 then 0
      else
        (let lineOffset = lineOffsets ! nat (line position);
             nextLineOffset =
               (if line position + 1 < int (length lineOffsets)
                then lineOffsets ! nat (line position + 1)
                else int (length text))
         in clamp nextLineOffset lineOffset (lineOffset + character position)))"

section \<open>The synthetic-source generator (astro2tsx)\<close>

subsection \<open>Data\<close>

record DiagnosticLocation =
  loc_file :: string
  loc_line :: int
  loc_column :: int
  loc_length :: int

record DiagnosticMessage =
  diag_code :: int
  location :: DiagnosticLocation
  severity :: int
  diag_text :: string

record RawSourceMap =
  sm_file :: string
  sm_sources :: "string list"
  sm_sourcesContent :: "string list"
  sm_names :: "string list"
  sm_mappings :: string
  sm_version :: int

record TSXResult =
  code :: string
  tsx_map :: RawSourceMap
  diagnostics :: "DiagnosticMessage list"

text \<open>
  A decoded segment of the line-mapping table: the generated column alone, or with the
  source index, source line and source column, or with a name index as well.
\<close>

datatype SourceMapSegment =
    Seg1 int
  | Seg4 int int int int
  | Seg5 int int int int int

fun segment0 :: "SourceMapSegment \<Rightarrow> int" where
  "segment0 (Seg1 c) = c"
| "segment0 (Seg4 c _ _ _) = c"
| "segment0 (Seg5 c _ _ _ _) = c"

fun segment2 :: "SourceMapSegment \<Rightarrow> int option" where
  "segment2 (Seg1 _) = None"
| "segment2 (Seg4 _ _ l _) = Some l"
| "segment2 (Seg5 _ _ l _ _) = Some l"

fun segment3 :: "SourceMapSegment \<Rightarrow> int option" where
  "segment3 (Seg1 _) = None"
| "segment3 (Seg4 _ _ _ c) = Some c"
| "segment3 (Seg5 _ _ _ c _) = Some c"

record CodeInformation =
  formattingEdits :: "bool option"

record Mapping =
  sourceRange :: "int \<times> int"
  generatedRange :: "int \<times> int"
  data :: CodeInformation

record Current =
  genOffset :: int
  sourceOffset :: int

record VirtualFile =
  vf_id :: string
  languageId :: string
  snapshot_text :: string
  mappings :: "Mapping list"

record Astro2TsxResult =
  virtualFile :: VirtualFile
  result_diagnostics :: "DiagnosticMessage list"

text \<open>
  The functions that the generator imports from other packages, or is handed as an
  argument, are parameters of the model: the markup-to-code compiler (\<open>None\<close> when it
  throws), the decoder of the line-mapping table, the text document's conversion of a
  position to an offset, the two path functions, the upper case of a code unit, and the
  start of the first statement that the TypeScript parser finds in a text (\<open>None\<close> when
  the text has no statement).
\<close>

record collaborators =
  convertToTSX :: "string \<Rightarrow> string \<Rightarrow> TSXResult option"
  decode :: "string \<Rightarrow> SourceMapSegment list list"
  TextDocument_offsetAt :: "string \<Rightarrow> Position \<Rightarrow> int"
  path_basename :: "string \<Rightarrow> string \<Rightarrow> string"
  path_extname :: "string \<Rightarrow> string"
  toUpperCase :: "char \<Rightarrow> string"
  firstStatementStart :: "string \<Rightarrow> int option"

subsection \<open>safeConvertToTSX\<close>

definition compilerErrorText :: string where
  "compilerErrorText =
     ''The Astro compiler encountered an unknown error while parsing this file. '' @
     ''Please create an issue with your code and the error shown in the server'' @ [CHR 0x27] @
     ''s logs: https://github.com/withastro/language-tools/issues''"

definition safeConvertToTSX :: "collaborators \<Rightarrow> string \<Rightarrow> string \<Rightarrow> TSXResult" where
  "safeConvertToTSX ext content filename =
     (case convertToTSX ext content filename of
        Some tsx \<Rightarrow> tsx
      | None \<Rightarrow>
          \<lparr>code = [],
           tsx_map = \<lparr>sm_file = filename, sm_sources = [], sm_sourcesContent = [],
                      sm_names = [], sm_mappings = [], sm_version = 0\<rparr>,
           diagnostics =
             [\<lparr>diag_code = 1000,
               location = \<lparr>loc_file = filename, loc_line = 1, loc_column = 1,
                            loc_length = int (length content)\<rparr>,
               severity = 1,
               diag_text = compilerErrorText\<rparr>]\<rparr>)"

subsection \<open>patchTSX\<close>

text \<open>
  The regular expression \<open>\b(\S*)__AstroComponent_\<close> with the global flag, written out:
  at a word boundary, the longest run of non-blank code units that is followed by the
  marker; the search goes from left to right and resumes after each match.
\<close>

definition marker :: string where
  "marker = ''__AstroComponent_''"

definition isWordChar :: "char \<Rightarrow> bool" where
  "isWordChar c =
     (let n = (of_char c :: nat)
      in (48 \<le> n \<and> n \<le> 57) \<or> (65 \<le> n \<and> n \<le> 90) \<or> (97 \<le> n \<and> n \<le> 122) \<or> n = 95)"

definition isWhiteSpace :: "char \<Rightarrow> bool" where
  "isWhiteSpace c = ((of_char c :: nat) \<in> {9, 10, 11, 12, 13, 32, 160})"

definition wordBoundary :: "char option \<Rightarrow> string \<Rightarrow> bool" where
  "wordBoundary prev s =
     ((case prev of Some c \<Rightarrow> isWordChar c | None \<Rightarrow> False)
      \<noteq> (case s of c # _ \<Rightarrow> isWordChar c | [] \<Rightarrow> False))"

definition matchAt :: "char option \<Rightarrow> string \<Rightarrow> nat option" where
  "matchAt prev s =
     (if wordBoundary prev s then
        find (\<lambda>k. prefix marker (drop k s))
          (rev [0 ..< Suc (length (takeWhile (\<lambda>c. \<not> isWhiteSpace c) s))])
      else None)"

function replaceMatches :: "(string \<Rightarrow> string \<Rightarrow> string) \<Rightarrow> char option \<Rightarrow> string \<Rightarrow> string" where
  "replaceMatches f prev s =
     (case s of
        [] \<Rightarrow> []
      | c # cs \<Rightarrow>
          (case matchAt prev s of
             Some k \<Rightarrow>
               f (take (k + 17) s) (take k s)
                 @ replaceMatches f (Some (CHR ''_'')) (drop (k + 17) s)
           | None \<Rightarrow> c # replaceMatches f (Some c) cs))"
  by pat_completeness auto
termination
  by (relation "measure (\<lambda>(f, prev, s). length s)") auto

declare replaceMatches.simps [simp del]

definition patchTSX :: "collaborators \<Rightarrow> string \<Rightarrow> string \<Rightarrow> string" where
  "patchTSX ext code0 fileName =
     (let basename = path_basename ext fileName (path_extname ext fileName);
          isDynamic = (prefix ''['' basename \<and> suffix '']'' basename)
      in replaceMatches
           (\<lambda>fullMatch m1.
              if m1 = [] then (if basename = ''404'' then ''FourOhFour'' else fullMatch)
              else if isDynamic then ''_'' @ m1 @ ''_''
              else toUpperCase ext (hd m1) @ tl m1)
           None code0)"

subsection \<open>getVirtualFileTSX\<close>

text \<open>
  The inner \<open>for\<close> loop that shrinks the length when the two texts differ: it stops at the
  first index where the code units differ.  A read past the end of a text is \<open>undefined\<close>,
  and \<open>undefined\<close> is equal to \<open>undefined\<close>.
\<close>

function shrinkLength :: "string \<Rightarrow> string \<Rightarrow> int \<Rightarrow> int \<Rightarrow> int \<Rightarrow> int" where
  "shrinkLength sourceText genText bound i len =
     (if i < bound then
        (if js_nth sourceText i = js_nth genText i
         then shrinkLength sourceText genText bound (i + 1) (i + 1)
         else len)
      else len)"
  by pat_completeness auto
termination
  by (relation "measure (\<lambda>(sourceText, genText, bound, i, len). nat (bound - i))") auto

declare shrinkLength.simps [simp del]

text \<open>The length that is mapped when \<open>current\<close> is closed at \<open>genOffset\<close>.\<close>

definition matchedLength :: "string \<Rightarrow> string \<Rightarrow> Current \<Rightarrow> int \<Rightarrow> int" where
  "matchedLength input code1 current genOffset1 =
     (let len = genOffset1 - genOffset current;
          sourceText = substring input (sourceOffset current) (sourceOffset current + len);
          genText = substring code1 (genOffset current) (genOffset current + len)
      in if sourceText \<noteq> genText
         then shrinkLength sourceText genText (genOffset1 - genOffset current) 0 0
         else len)"

text \<open>
  The last mapping is extended when it ends where \<open>current\<close> starts, in the generated
  text and in the source; otherwise a new mapping is pushed.
\<close>

definition addMapping :: "Mapping list \<Rightarrow> Current \<Rightarrow> int \<Rightarrow> Mapping list" where
  "addMapping mappings1 current len =
     (if mappings1 \<noteq> []
         \<and> snd (generatedRange (last mappings1)) = genOffset current
         \<and> snd (sourceRange (last mappings1)) = sourceOffset current
      then butlast mappings1 @
             [(last mappings1)
                \<lparr>generatedRange := (fst (generatedRange (last mappings1)), genOffset current + len),
                 sourceRange := (fst (sourceRange (last mappings1)), sourceOffset current + len)\<rparr>]
      else mappings1 @
             [\<lparr>sourceRange = (sourceOffset current, sourceOffset current + len),
               generatedRange = (genOffset current, genOffset current + len),
               data = \<lparr>formattingEdits = None\<rparr>\<rparr>])"

text \<open>The body of the loop over the segments of one generated line.\<close>

definition segmentStep ::
  "collaborators \<Rightarrow> string \<Rightarrow> string \<Rightarrow> int \<Rightarrow>
   Mapping list \<times> Current option \<Rightarrow> SourceMapSegment \<Rightarrow> Mapping list \<times> Current option" where
  "segmentStep ext input code1 genLine st segment =
     (case st of (mappings1, current) \<Rightarrow>
        (let genCharacter = segment0 segment;
             genOffset1 = TextDocument_offsetAt ext code1 \<lparr>line = genLine, character = genCharacter\<rparr>;
             (mappings2, current2) =
               (case current of
                  Some cur \<Rightarrow>
                    (let len = matchedLength input code1 cur genOffset1
                     in (if len > 0 then addMapping mappings1 cur len else mappings1, None))
                | None \<Rightarrow> (mappings1, None))
         in case (segment2 segment, segment3 segment) of
              (Some l, Some c) \<Rightarrow>
                (mappings2,
                 Some \<lparr>genOffset = genOffset1,
                       sourceOffset = TextDocument_offsetAt ext input \<lparr>line = l, character = c\<rparr>\<rparr>)
            | _ \<Rightarrow> (mappings2, current2)))"

text \<open>The loop over the generated lines, from line \<open>genLine\<close> on.\<close>

fun lineLoop ::
  "collaborators \<Rightarrow> string \<Rightarrow> string \<Rightarrow> int \<Rightarrow> SourceMapSegment list list \<Rightarrow>
   Mapping list \<times> Current option \<Rightarrow> Mapping list \<times> Current option" where
  "lineLoop ext input code1 genLine [] st = st"
| "lineLoop ext input code1 genLine (segments # rest) st =
     lineLoop ext input code1 (genLine + 1) rest
       (foldl (segmentStep ext input code1 genLine) st segments)"

text \<open>
  The mappings when the two loops have run: those built from the line-mapping table,
  over the patched code.
\<close>

definition tableMappings :: "collaborators \<Rightarrow> string \<Rightarrow> TSXResult \<Rightarrow> string \<Rightarrow> Mapping list" where
  "tableMappings ext input tsx fileId =
     fst (lineLoop ext input (patchTSX ext (code tsx) fileId) 0
            (decode ext (sm_mappings (tsx_map tsx))) ([], None))"

definition disableFormatting :: "Mapping \<Rightarrow> Mapping" where
  "disableFormatting mapping = mapping\<lparr>data := (data mapping)\<lparr>formattingEdits := Some False\<rparr>\<rparr>"

definition getVirtualFileTSX :: "collaborators \<Rightarrow> string \<Rightarrow> TSXResult \<Rightarrow> string \<Rightarrow> VirtualFile" where
  "getVirtualFileTSX ext input tsx fileId =
     (let code1 = patchTSX ext (code tsx) fileId;
          mappings1 = tableMappings ext input tsx fileId;
          mappings2 =
            (case firstStatementStart ext code1 of
               Some start \<Rightarrow>
                 mappings1 @
                   [\<lparr>sourceRange = (0, int (length input)),
                     generatedRange = (start, int (length code1)),
                     data = \<lparr>formattingEdits = None\<rparr>\<rparr>]
             | None \<Rightarrow> mappings1)
      in \<lparr>vf_id = fileId @ ''.tsx'',
          languageId = ''typescriptreact'',
          snapshot_text = code1,
          mappings = map disableFormatting mappings2\<rparr>)"

definition astro2tsx :: "collaborators \<Rightarrow> string \<Rightarrow> string \<Rightarrow> Astro2TsxResult" where
  "astro2tsx ext input fileName =
     (let tsx = safeConvertToTSX ext input fileName
      in \<lparr>virtualFile = getVirtualFileTSX ext input tsx fileName,
          result_diagnostics = diagnostics tsx\<rparr>)"

text \<open>
  The entries of the returned list that were built from the line-mapping table: all but
  the whole-document entry that is pushed after the loops.
\<close>

definition tableEntries :: "collaborators \<Rightarrow> string \<Rightarrow> TSXResult \<Rightarrow> string \<Rightarrow> Mapping list" where
  "tableEntries ext input tsx fileId =
     take (length (tableMappings ext input tsx fileId))
       (mappings (getVirtualFileTSX ext input tsx fileId))"

text \<open>
  The generated offsets of the segments of the table, in the order in which the loops
  visit them.
\<close>

fun generatedOffsets :: "collaborators \<Rightarrow> string \<Rightarrow> int \<Rightarrow> SourceMapSegment list list \<Rightarrow> int list" where
  "generatedOffsets ext code1 genLine [] = []"
| "generatedOffsets ext code1 genLine (segments # rest) =
     map (\<lambda>segment. TextDocument_offsetAt ext code1 \<lparr>line = genLine, character = segment0 segment\<rparr>)
       segments
     @ generatedOffsets ext code1 (genLine + 1) rest"


subsection \<open>Translating offsets through one mapping segment\<close>

text \<open>
  Modelled from the spec: \<open>mapToGenerated\<close> and \<open>mapToOriginal\<close> are not among the source
  files.  The spec: for an original offset inside a mapped \<open>sourceRange\<close> there is exactly
  one generated offset, by linear interpolation within the corresponding
  \<open>generatedRange\<close>; offsets outside the range are unmapped.  Offsets are integers, so
  the interpolated offset is rounded down.
\<close>

definition interpolate :: "int \<times> int \<Rightarrow> int \<times> int \<Rightarrow> int \<Rightarrow> int option" where
  "interpolate fromRange toRange offset =
     (if fst fromRange \<le> offset \<and> offset \<le> snd fromRange then
        Some (if snd fromRange = fst fromRange then fst toRange
              else fst toRange
                   + ((offset - fst fromRange) * (snd toRange - fst toRange))
                       div (snd fromRange - fst fromRange))
      else None)"

text \<open>
  Modelled from the spec: the translation of an original offset to the generated text, and
  of a generated offset to the original text, through one mapping segment; and the
  translation there and back.
\<close>

definition mapToGenerated :: "Mapping \<Rightarrow> int \<Rightarrow> int option" where
  "mapToGenerated mapping offset =
     interpolate (sourceRange mapping) (generatedRange mapping) offset"

definition mapToOriginal :: "Mapping \<Rightarrow> int \<Rightarrow> int option" where
  "mapToOriginal mapping offset =
     interpolate (generatedRange mapping) (sourceRange mapping) offset"

definition roundTrip :: "Mapping \<Rightarrow> int \<Rightarrow> int option" where
  "roundTrip mapping offset =
     (case mapToGenerated mapping offset of
        Some generated \<Rightarrow> mapToOriginal mapping generated
      | None \<Rightarrow> None)"

section \<open>The frontmatter scanner\<close>

text \<open>
  Modelled from the spec: \<open>getAstroMetadata\<close> (\<open>parseAstro\<close>) is not among the source files,
  only its test is.  The spec: search for the literal triple-dash delimiter; none found is
  \<open>absent\<close>; exactly one is \<open>open\<close>; two or more is \<open>closed\<close>, the first two occurrences being
  the opening and the closing delimiter, with the line, column and offset of each
  delimiter edge.  The test fixes the edges (the start of the opening delimiter and the
  end of the closing one) and that lines and columns count from 1.
\<close>

record Point =
  point_line :: int
  point_column :: int
  point_offset :: int

datatype FrontmatterStatus =
    Absent
  | Open Point
  | Closed Point Point

definition delimiter :: string where
  "delimiter = ''---''"

fun indexOf :: "string \<Rightarrow> string \<Rightarrow> nat option" where
  "indexOf pat [] = (if pat = [] then Some 0 else None)"
| "indexOf pat (c # cs) =
     (if prefix pat (c # cs) then Some 0 else map_option Suc (indexOf pat cs))"

definition indexOfFrom :: "string \<Rightarrow> string \<Rightarrow> nat \<Rightarrow> nat option" where
  "indexOfFrom pat s from = map_option (\<lambda>i. i + from) (indexOf pat (drop from s))"

definition pointAt :: "string \<Rightarrow> nat \<Rightarrow> Point" where
  "pointAt s offset =
     (let textBefore = take offset s;
          lastLine = rev (takeWhile (\<lambda>c. c \<noteq> LF) (rev textBefore))
      in \<lparr>point_line = 1 + int (length (filter (\<lambda>c. c = LF) textBefore)),
          point_column = 1 + int (length lastLine),
          point_offset = int offset\<rparr>)"

text \<open>
  Modelled from the spec: the scan itself, on the first two occurrences of the delimiter,
  the second one searched after the end of the first.
\<close>

definition scan :: "string \<Rightarrow> FrontmatterStatus" where
  "scan s =
     (case indexOfFrom delimiter s 0 of
        None \<Rightarrow> Absent
      | Some i \<Rightarrow>
          (case indexOfFrom delimiter s (i + 3) of
             None \<Rightarrow> Open (pointAt s i)
           | Some j \<Rightarrow> Closed (pointAt s i) (pointAt s (j + 3))))"

section \<open>Extraction of embedded blocks\<close>

text \<open>A node of the markup tree, as the markup parser hands it over.\<close>

datatype Node =
  Node (node_tag: "string option") (node_start: int) (node_end: int)
       (startTagEnd: "int option") (endTagStart: "int option")
       (node_attributes: "(string \<times> string option) list option")
       (children: "Node list") (node_closed: bool)

record TagInformation =
  content :: string
  attributes :: "(string \<times> string) list"
  startOffset :: int
  endOffset :: int
  startPos :: "Position option"
  endPos :: "Position option"
  container :: "int \<times> int"
  closed :: bool

text \<open>The generator \<open>walk\<close>: the nodes below a node, children first, then the node.\<close>

fun walk :: "Node \<Rightarrow> Node list" where
  "walk (Node t s e ste ets attrs cs cl) = concat (map walk cs) @ [Node t s e ste ets attrs cs cl]"

definition removeOuterQuotes :: "string \<Rightarrow> string" where
  "removeOuterQuotes attrValue =
     (if (prefix [CHR 0x22] attrValue \<and> suffix [CHR 0x22] attrValue)
         \<or> (prefix [CHR 0x27] attrValue \<and> suffix [CHR 0x27] attrValue)
      then take (length attrValue - 1 - 1) (drop 1 attrValue)
      else attrValue)"

definition parseAttributes :: "(string \<times> string option) list option \<Rightarrow> (string \<times> string) list" where
  "parseAttributes rawAttrs =
     (case rawAttrs of
        None \<Rightarrow> []
      | Some entries \<Rightarrow>
          map (\<lambda>(attrName, attrValue).
                 (attrName, case attrValue of None \<Rightarrow> attrName | Some v \<Rightarrow> removeOuterQuotes v))
            entries)"

definition transformToTagInfo :: "string \<Rightarrow> Node \<Rightarrow> TagInformation" where
  "transformToTagInfo text matchedNode =
     (let start = (case startTagEnd matchedNode of Some v \<Rightarrow> v | None \<Rightarrow> node_start matchedNode);
          end1 = (case endTagStart matchedNode of Some v \<Rightarrow> v | None \<Rightarrow> node_end matchedNode)
      in \<lparr>content = substring text start end1,
          attributes = parseAttributes (node_attributes matchedNode),
          startOffset = start,
          endOffset = end1,
          startPos = positionAt start text (getLineOffsets text),
          endPos = positionAt end1 text (getLineOffsets text),
          container = (node_start matchedNode, node_end matchedNode),
          closed = node_closed matchedNode\<rparr>)"

text \<open>
  \<open>extractTags\<close>: the roots of the parsed document when one is given, otherwise those of
  the text as the markup parser reads it (a parameter).
\<close>

definition extractTags ::
  "(string \<Rightarrow> Node list) \<Rightarrow> string \<Rightarrow> string \<Rightarrow> Node list option \<Rightarrow> TagInformation list" where
  "extractTags parseHtml text tag html =
     (let rootNodes = (case html of Some roots \<Rightarrow> roots | None \<Rightarrow> parseHtml text);
          matchedNodes = filter (\<lambda>node. node_tag node = Some tag) rootNodes;
          matchedNodes' =
            (if tag = ''style'' \<and> matchedNodes = [] \<and> rootNodes \<noteq> []
             then matchedNodes @ filter (\<lambda>child. node_tag child = Some ''style'') (walk (hd rootNodes))
             else matchedNodes)
      in map (transformToTagInfo text) matchedNodes')"

definition extractStyleTags :: "(string \<Rightarrow> Node list) \<Rightarrow> string \<Rightarrow> Node list option \<Rightarrow> TagInformation list" where
  "extractStyleTags parseHtml source html =
     (let styles = extractTags parseHtml source ''style'' html
      in if styles = [] then [] else styles)"

subsection \<open>The extraction of the spec\<close>








section \<open>Invariants of the loops over the table\<close>

text \<open>
  A mapping whose two ranges are not empty and have the same length; a mapping whose ranges
  lie inside the two texts and cover the same text; and the state of the loops in which
  every mapping is of that kind and \<open>current\<close> holds offsets of the two texts.
\<close>

definition equalLength :: "Mapping \<Rightarrow> bool" where
  "equalLength m =
     (fst (sourceRange m) < snd (sourceRange m)
      \<and> snd (sourceRange m) - fst (sourceRange m)
          = snd (generatedRange m) - fst (generatedRange m))"

definition mappedTextEqual :: "string \<Rightarrow> string \<Rightarrow> Mapping \<Rightarrow> bool" where
  "mappedTextEqual input code1 m =
     (0 \<le> fst (sourceRange m) \<and> snd (sourceRange m) \<le> int (length input)
      \<and> 0 \<le> fst (generatedRange m) \<and> snd (generatedRange m) \<le> int (length code1)
      \<and> equalLength m
      \<and> substring input (fst (sourceRange m)) (snd (sourceRange m))
          = substring code1 (fst (generatedRange m)) (snd (generatedRange m)))"


text \<open>
  A mapping that ends, in the generated text, where another starts or before; and the
  state of the loops in which the mappings are in that order, none is empty, all end at
  or before the generated offset \<open>b\<close> of the segment visited last, and \<open>current\<close> starts there.
\<close>

definition generatedBefore :: "Mapping \<Rightarrow> Mapping \<Rightarrow> bool" where
  "generatedBefore m1 m2 = (snd (generatedRange m1) \<le> fst (generatedRange m2))"

definition orderInvariant :: "int \<Rightarrow> Mapping list \<times> Current option \<Rightarrow> bool" where
  "orderInvariant b st =
     (sorted_wrt generatedBefore (fst st)
      \<and> (\<forall>m \<in> set (fst st).
            fst (generatedRange m) < snd (generatedRange m) \<and> snd (generatedRange m) \<le> b)
      \<and> (\<forall>c. snd st = Some c \<longrightarrow> genOffset c = b))"

section \<open>Sample collaborators and documents\<close>

text \<open>
  Concrete collaborators for the examples: a compiler with a fixed answer, the decodings
  of three line-mapping tables, the repository's own \<open>offsetAt\<close> as the text document's, the
  path functions on the file name \<open>index.astro\<close>, the upper case of the ASCII letters, and
  a first statement that starts at the first code unit that is not blank.
\<close>

definition firstNonBlank :: "string \<Rightarrow> int option" where
  "firstNonBlank s = map_option int (find (\<lambda>i. \<not> isWhiteSpace (s ! i)) [0 ..< length s])"

definition sampleDecode :: "string \<Rightarrow> SourceMapSegment list list" where
  "sampleDecode m =
     (if m = ''AAAA,E'' then [[Seg4 0 0 0 0, Seg1 2]]
      else if m = ''AAAA,I'' then [[Seg4 0 0 0 0, Seg1 4]]
      else if m = ''AAAA,E,CAAG,E'' then [[Seg4 0 0 0 0, Seg1 2, Seg4 3 0 0 3, Seg1 5]]
      else [[]])"

definition sampleOffsetAt :: "string \<Rightarrow> Position \<Rightarrow> int" where
  "sampleOffsetAt text position = offsetAt position text (getLineOffsets text)"

definition sampleCollaborators :: "TSXResult option \<Rightarrow> collaborators" where
  "sampleCollaborators compiled =
     \<lparr>convertToTSX = (\<lambda>content filename. compiled),
      decode = sampleDecode,
      TextDocument_offsetAt = sampleOffsetAt,
      path_basename = (\<lambda>p e. if p = ''index.astro'' \<and> e = ''.astro'' then ''index'' else p),
      path_extname = (\<lambda>p. if p = ''index.astro'' then ''.astro'' else []),
      toUpperCase =
        (\<lambda>c. if 97 \<le> (of_char c :: nat) \<and> (of_char c :: nat) \<le> 122
             then [char_of ((of_char c :: nat) - 32)] else [c]),
      firstStatementStart = firstNonBlank\<rparr>"

definition sampleTSX :: "string \<Rightarrow> string \<Rightarrow> TSXResult" where
  "sampleTSX c m =
     \<lparr>code = c,
      tsx_map = \<lparr>sm_file = ''index.astro'', sm_sources = [''index.astro''],
                 sm_sourcesContent = [], sm_names = [], sm_mappings = m, sm_version = 3\<rparr>,
      diagnostics = []\<rparr>"

text \<open>
  The document of the style test, and its tree as the markup parser gives it: a style
  element at the top level, then a div element that holds a second style element.
\<close>

definition styleDoc :: string where
  "styleDoc = ''<style>h1{color: blue;}</style><div><style>h2{color: red;}</style></div>''"

definition styleRoots :: "Node list" where
  "styleRoots =
     [Node (Some ''style'') 0 31 (Some 7) (Some 23) (Some []) [] True,
      Node (Some ''div'') 31 72 (Some 36) (Some 66) (Some [])
        [Node (Some ''style'') 36 66 (Some 43) (Some 58) (Some []) [] True] True]"

section \<open>Positions and offsets\<close>













section \<open>The fallback when the compiler throws\<close>

lemma patchTSX_empty: "patchTSX ext [] fileName = []"
  by (simp add: patchTSX_def replaceMatches.simps [of _ _ "[]"])

text \<open>
  Claim C3.  When the markup-to-code compiler throws, \<open>astro2tsx\<close> still returns a value:
  the generated code is the empty text and the diagnostics are exactly one diagnostic, of
  severity 1 (error), with the code 1000 and the text that reports the unknown compiler
  error, located at the start of the file and as long as the input.
\<close>

theorem fallback_on_compiler_error:
  assumes "convertToTSX ext input fileName = None"
  shows "snapshot_text (virtualFile (astro2tsx ext input fileName)) = []
         \<and> result_diagnostics (astro2tsx ext input fileName) =
             [\<lparr>diag_code = 1000,
               location = \<lparr>loc_file = fileName, loc_line = 1, loc_column = 1,
                            loc_length = int (length input)\<rparr>,
               severity = 1,
               diag_text = compilerErrorText\<rparr>]"
  using assms
  by (simp add: astro2tsx_def safeConvertToTSX_def getVirtualFileTSX_def Let_def patchTSX_empty)

theorem fallback_on_compiler_error_witness:
  "convertToTSX (sampleCollaborators None) ''hello'' ''index.astro'' = None
   \<and> snapshot_text (virtualFile (astro2tsx (sampleCollaborators None) ''hello'' ''index.astro'')) = []
   \<and> map severity
        (result_diagnostics (astro2tsx (sampleCollaborators None) ''hello'' ''index.astro'')) = [1]"
proof -
  have h: "convertToTSX (sampleCollaborators None) ''hello'' ''index.astro'' = None"
    by (simp add: sampleCollaborators_def)
  show ?thesis
    using h fallback_on_compiler_error [OF h] by simp
qed

section \<open>The formatting flag\<close>

lemma map_const_two:
  assumes "length xs = Suc (Suc 0)" and "\<forall>x \<in> set xs. f x = c"
  shows "map f xs = [c, c]"
proof -
  from assms(1) obtain a b where "xs = [a, b]"
    by (metis length_0_conv length_Suc_conv)
  with assms(2) show ?thesis by simp
qed

text \<open>
  Claim C9.  Every mapping of the returned virtual file has its formatting flag set, and
  set to false: no mapping carries a true formatting flag.
\<close>

theorem formatting_disabled:
  "\<forall>m \<in> set (mappings (virtualFile (astro2tsx ext input fileName))).
     formattingEdits (data m) = Some False"
  by (simp add: astro2tsx_def getVirtualFileTSX_def Let_def disableFormatting_def)

theorem formatting_disabled_witness:
  "map (\<lambda>m. formattingEdits (data m))
     (mappings (virtualFile
        (astro2tsx (sampleCollaborators (Some (sampleTSX ''he;'' ''AAAA,E''))) ''hello'' ''index.astro'')))
   = [Some False, Some False]"
proof -
  have len: "length (mappings (virtualFile
      (astro2tsx (sampleCollaborators (Some (sampleTSX ''he;'' ''AAAA,E''))) ''hello'' ''index.astro'')))
      = Suc (Suc 0)"
    by code_simp
  show ?thesis
    by (rule map_const_two [OF len formatting_disabled])
qed

section \<open>The whole-document entry\<close>

lemma last_of_snoc_eq: "xs = ys @ [e] \<Longrightarrow> last xs = e"
  by simp

lemma astro2tsx_virtualFile:
  "virtualFile (astro2tsx ext input fileName)
     = getVirtualFileTSX ext input (safeConvertToTSX ext input fileName) fileName"
  by (simp add: astro2tsx_def Let_def)

lemma getVirtualFileTSX_mappings:
  "mappings (getVirtualFileTSX ext input tsx fileId) =
     map disableFormatting
       (case firstStatementStart ext (patchTSX ext (code tsx) fileId) of
          Some start \<Rightarrow>
            tableMappings ext input tsx fileId @
              [\<lparr>sourceRange = (0, int (length input)),
                generatedRange = (start, int (length (patchTSX ext (code tsx) fileId))),
                data = \<lparr>formattingEdits = None\<rparr>\<rparr>]
        | None \<Rightarrow> tableMappings ext input tsx fileId)"
  by (simp add: getVirtualFileTSX_def Let_def)

lemma getVirtualFileTSX_text:
  "snapshot_text (getVirtualFileTSX ext input tsx fileId) = patchTSX ext (code tsx) fileId"
  by (simp add: getVirtualFileTSX_def Let_def)

text \<open>
  Claim C7, amended.  When the TypeScript parser finds a first statement in the generated
  code, the returned list is the mappings built from the table followed by one more
  entry, from \<open>[0, length of the input]\<close> to the span from the start of that statement to
  the end of the generated code.  When it finds none, no entry is added: the returned
  list is the mappings built from the table.
\<close>

theorem whole_document_entry:
  "(firstStatementStart ext (snapshot_text (getVirtualFileTSX ext input tsx fileId)) = Some start
      \<longrightarrow> mappings (getVirtualFileTSX ext input tsx fileId) =
            map disableFormatting (tableMappings ext input tsx fileId) @
              [\<lparr>sourceRange = (0, int (length input)),
                generatedRange =
                  (start, int (length (snapshot_text (getVirtualFileTSX ext input tsx fileId)))),
                data = \<lparr>formattingEdits = Some False\<rparr>\<rparr>])
   \<and> (firstStatementStart ext (snapshot_text (getVirtualFileTSX ext input tsx fileId)) = None
      \<longrightarrow> mappings (getVirtualFileTSX ext input tsx fileId) =
            map disableFormatting (tableMappings ext input tsx fileId))"
  by (simp add: getVirtualFileTSX_mappings getVirtualFileTSX_text disableFormatting_def)

theorem whole_document_entry_witness:
  "firstStatementStart (sampleCollaborators None)
     (snapshot_text (getVirtualFileTSX (sampleCollaborators None) ''hello''
        (sampleTSX ''he;'' ''AAAA,E'') ''index.astro''))
     = Some 0
   \<and> last (mappings (getVirtualFileTSX (sampleCollaborators None) ''hello''
        (sampleTSX ''he;'' ''AAAA,E'') ''index.astro''))
     = \<lparr>sourceRange = (0, int (length ''hello'')),
        generatedRange =
          (0, int (length (snapshot_text
                (getVirtualFileTSX (sampleCollaborators None) ''hello''
                   (sampleTSX ''he;'' ''AAAA,E'') ''index.astro'')))),
        data = \<lparr>formattingEdits = Some False\<rparr>\<rparr>
   \<and> firstStatementStart (sampleCollaborators None)
        (snapshot_text (getVirtualFileTSX (sampleCollaborators None) ''hello''
           (sampleTSX [] []) ''index.astro''))
     = None
   \<and> mappings (getVirtualFileTSX (sampleCollaborators None) ''hello'' (sampleTSX [] []) ''index.astro'')
     = map disableFormatting
         (tableMappings (sampleCollaborators None) ''hello'' (sampleTSX [] []) ''index.astro'')"
proof -
  let ?vf = "getVirtualFileTSX (sampleCollaborators None) ''hello''
        (sampleTSX ''he;'' ''AAAA,E'') ''index.astro''"
  let ?ve = "getVirtualFileTSX (sampleCollaborators None) ''hello'' (sampleTSX [] []) ''index.astro''"
  have s: "firstStatementStart (sampleCollaborators None) (snapshot_text ?vf) = Some 0"
    by code_simp
  have n: "firstStatementStart (sampleCollaborators None) (snapshot_text ?ve) = None"
    by code_simp
  from whole_document_entry
    [of "sampleCollaborators None" "''hello''" "sampleTSX ''he;'' ''AAAA,E''" "''index.astro''" 0]
  have "firstStatementStart (sampleCollaborators None) (snapshot_text ?vf) = Some 0 \<longrightarrow>
     mappings ?vf =
       map disableFormatting
         (tableMappings (sampleCollaborators None) ''hello'' (sampleTSX ''he;'' ''AAAA,E'')
            ''index.astro'') @
         [\<lparr>sourceRange = (0, int (length ''hello'')),
           generatedRange = (0, int (length (snapshot_text ?vf))),
           data = \<lparr>formattingEdits = Some False\<rparr>\<rparr>]"
    by (rule conjunct1)
  from this [rule_format, OF s]
  have e: "last (mappings ?vf) =
      \<lparr>sourceRange = (0, int (length ''hello'')),
       generatedRange = (0, int (length (snapshot_text ?vf))),
       data = \<lparr>formattingEdits = Some False\<rparr>\<rparr>"
    by (rule last_of_snoc_eq)
  from whole_document_entry
    [of "sampleCollaborators None" "''hello''" "sampleTSX [] []" "''index.astro''" 0]
  have "firstStatementStart (sampleCollaborators None) (snapshot_text ?ve) = None \<longrightarrow>
     mappings ?ve =
       map disableFormatting
         (tableMappings (sampleCollaborators None) ''hello'' (sampleTSX [] []) ''index.astro'')"
    by (rule conjunct2)
  from this [rule_format, OF n]
  have m: "mappings ?ve =
       map disableFormatting
         (tableMappings (sampleCollaborators None) ''hello'' (sampleTSX [] []) ''index.astro'')" .
  from s e n m show ?thesis by blast
qed

text \<open>
  The claim as stated fails in the fallback case it names: when the compiler throws, the
  generated code is empty, it has no statement, and the returned list is empty.
\<close>

theorem fallback_mappings_empty:
  "snapshot_text (virtualFile (astro2tsx (sampleCollaborators None) ''hello'' ''index.astro'')) = []
   \<and> mappings (virtualFile (astro2tsx (sampleCollaborators None) ''hello'' ''index.astro'')) = []"
  by code_simp

section \<open>The mappings built from the line-mapping table\<close>

lemma substring_take_drop:
  assumes "0 \<le> a" and "0 \<le> l"
  shows "substring s a (a + l) = take (nat l) (drop (nat a) s)"
proof (cases "a \<le> int (length s)")
  case True
  show ?thesis
  proof (cases "a + l \<le> int (length s)")
    case True
    with assms \<open>a \<le> int (length s)\<close> show ?thesis
      by (simp add: substring_def Let_def min_def max_def)
  next
    case False
    with assms \<open>a \<le> int (length s)\<close> have "nat l \<ge> length s - nat a" by linarith
    with assms False \<open>a \<le> int (length s)\<close> show ?thesis
      by (simp add: substring_def Let_def min_def max_def)
  qed
next
  case False
  with assms show ?thesis
    by (simp add: substring_def Let_def min_def max_def)
qed

lemma length_substring:
  assumes "0 \<le> a" and "0 \<le> l" and "a + l \<le> int (length s)"
  shows "length (substring s a (a + l)) = nat l"
  using assms by (simp add: substring_take_drop)

lemma shrinkLength_spec:
  assumes "0 \<le> i"
  shows "i \<le> shrinkLength src gen bound i i
         \<and> (i \<le> bound \<longrightarrow> shrinkLength src gen bound i i \<le> bound)
         \<and> (\<forall>j. i \<le> j \<and> j < shrinkLength src gen bound i i \<longrightarrow> js_nth src j = js_nth gen j)
         \<and> (shrinkLength src gen bound i i < bound
              \<longrightarrow> js_nth src (shrinkLength src gen bound i i) \<noteq> js_nth gen (shrinkLength src gen bound i i))"
  using assms
proof (induction "nat (bound - i)" arbitrary: i)
  case 0
  then have "\<not> i < bound" by simp
  then have "shrinkLength src gen bound i i = i"
    by (simp add: shrinkLength.simps [of src gen bound i i])
  with \<open>\<not> i < bound\<close> show ?case by auto
next
  case (Suc n)
  then have lt: "i < bound" by linarith
  show ?case
  proof (cases "js_nth src i = js_nth gen i")
    case False
    with lt have "shrinkLength src gen bound i i = i"
      by (simp add: shrinkLength.simps [of src gen bound i i])
    with lt False show ?thesis by auto
  next
    case True
    have eq: "shrinkLength src gen bound i i = shrinkLength src gen bound (i + 1) (i + 1)"
      using lt True by (simp add: shrinkLength.simps [of src gen bound i i])
    have n: "n = nat (bound - (i + 1))" using Suc.hyps(2) by linarith
    have ih: "i + 1 \<le> shrinkLength src gen bound (i + 1) (i + 1)
         \<and> (i + 1 \<le> bound \<longrightarrow> shrinkLength src gen bound (i + 1) (i + 1) \<le> bound)
         \<and> (\<forall>j. i + 1 \<le> j \<and> j < shrinkLength src gen bound (i + 1) (i + 1) \<longrightarrow> js_nth src j = js_nth gen j)
         \<and> (shrinkLength src gen bound (i + 1) (i + 1) < bound
              \<longrightarrow> js_nth src (shrinkLength src gen bound (i + 1) (i + 1)) \<noteq> js_nth gen (shrinkLength src gen bound (i + 1) (i + 1)))"
      using Suc.hyps(1) [OF n] Suc.prems by simp
    have "\<And>j. i \<le> j \<Longrightarrow> j < shrinkLength src gen bound (i + 1) (i + 1) \<Longrightarrow> js_nth src j = js_nth gen j"
    proof -
      fix j assume "i \<le> j" "j < shrinkLength src gen bound (i + 1) (i + 1)"
      then show "js_nth src j = js_nth gen j"
        using ih True by (cases "j = i") auto
    qed
    with ih lt show ?thesis unfolding eq by auto
  qed
qed



lemma shrinkLength_no_iteration: "\<not> i < bound \<Longrightarrow> shrinkLength src gen bound i len = len"
  by (simp add: shrinkLength.simps [of src gen bound i len])

lemma matchedLength_le_span:
  "matchedLength input code1 cur g1 \<le> max 0 (g1 - genOffset cur)"
proof (cases "0 \<le> g1 - genOffset cur")
  case True
  with shrinkLength_spec [of 0 _ _ "g1 - genOffset cur"] show ?thesis
    by (simp add: matchedLength_def Let_def)
next
  case False
  then show ?thesis
    by (simp add: matchedLength_def Let_def shrinkLength_no_iteration)
qed

lemma lineLoop_invariant:
  assumes "P st"
    and "\<And>st genLine segment. P st \<Longrightarrow> P (segmentStep ext input code1 genLine st segment)"
  shows "P (lineLoop ext input code1 genLine v3 st)"
  using assms(1)
proof (induction v3 arbitrary: genLine st)
  case Nil
  then show ?case by simp
next
  case (Cons segments rest)
  have "P (foldl (segmentStep ext input code1 genLine) st segments)"
    using Cons.prems
  proof (induction segments arbitrary: st)
    case Nil
    then show ?case by simp
  next
    case (Cons segment segments)
    then show ?case using assms(2) by simp
  qed
  then show ?case using Cons.IH by simp
qed

lemma set_addMapping:
  "set (addMapping ms cur len) \<subseteq>
     set ms \<union>
     {\<lparr>sourceRange = (sourceOffset cur, sourceOffset cur + len),
       generatedRange = (genOffset cur, genOffset cur + len),
       data = \<lparr>formattingEdits = None\<rparr>\<rparr>}
     \<union> (if ms \<noteq> [] \<and> snd (generatedRange (last ms)) = genOffset cur
             \<and> snd (sourceRange (last ms)) = sourceOffset cur
         then {(last ms)
                \<lparr>generatedRange := (fst (generatedRange (last ms)), genOffset cur + len),
                 sourceRange := (fst (sourceRange (last ms)), sourceOffset cur + len)\<rparr>}
         else {})"
  by (auto simp: addMapping_def dest: in_set_butlastD)

lemma addMapping_equalLength:
  assumes "\<forall>m \<in> set ms. equalLength m" and "0 < len"
  shows "\<forall>m \<in> set (addMapping ms cur len). equalLength m"
proof
  fix m assume "m \<in> set (addMapping ms cur len)"
  with set_addMapping [of ms cur len]
  consider "m \<in> set ms"
    | "m = \<lparr>sourceRange = (sourceOffset cur, sourceOffset cur + len),
             generatedRange = (genOffset cur, genOffset cur + len),
             data = \<lparr>formattingEdits = None\<rparr>\<rparr>"
    | "ms \<noteq> []" "snd (generatedRange (last ms)) = genOffset cur"
      "snd (sourceRange (last ms)) = sourceOffset cur"
      "m = (last ms)
             \<lparr>generatedRange := (fst (generatedRange (last ms)), genOffset cur + len),
              sourceRange := (fst (sourceRange (last ms)), sourceOffset cur + len)\<rparr>"
    by (auto split: if_splits)
  then show "equalLength m"
  proof cases
    case 1
    with assms show ?thesis by simp
  next
    case 2
    with assms show ?thesis by (simp add: equalLength_def)
  next
    case 3
    from 3(1) assms(1) have "equalLength (last ms)" by simp
    with 3 assms(2) show ?thesis by (simp add: equalLength_def)
  qed
qed

lemma segmentStep_equalLength:
  assumes "\<forall>m \<in> set (fst st). equalLength m"
  shows "\<forall>m \<in> set (fst (segmentStep ext input code1 genLine st segment)). equalLength m"
proof (cases st)
  case (Pair ms cur)
  show ?thesis
  proof (cases cur)
    case None
    with Pair assms show ?thesis
      by (simp add: segmentStep_def Let_def split: option.splits)
  next
    case (Some c)
    with Pair assms addMapping_equalLength [of ms _ c] show ?thesis
      by (simp add: segmentStep_def Let_def split: option.splits)
  qed
qed

lemma tableMappings_equalLength:
  "\<forall>m \<in> set (tableMappings ext input tsx fileId). equalLength m"
  unfolding tableMappings_def
  by (rule lineLoop_invariant [where P = "\<lambda>st. \<forall>m \<in> set (fst st). equalLength m"])
     (simp_all add: segmentStep_equalLength)





section \<open>Round trips through one entry\<close>

lemma tableEntries_eq:
  "tableEntries ext input tsx fileId = map disableFormatting (tableMappings ext input tsx fileId)"
  by (simp add: tableEntries_def getVirtualFileTSX_mappings split: option.splits)

lemma equalLength_disableFormatting [simp]: "equalLength (disableFormatting m) = equalLength m"
  by (simp add: equalLength_def disableFormatting_def)

lemma mappedTextEqual_disableFormatting [simp]:
  "mappedTextEqual input code1 (disableFormatting m) = mappedTextEqual input code1 m"
  by (simp add: mappedTextEqual_def disableFormatting_def equalLength_def)

lemma tableEntries_equalLength:
  "m \<in> set (tableEntries ext input tsx fileId) \<Longrightarrow> equalLength m"
  using tableMappings_equalLength [of ext input tsx fileId]
  by (auto simp: tableEntries_eq)

lemma interpolate_translate:
  assumes "a < b" and "b - a = d - c" and "a \<le> x" and "x \<le> b"
  shows "interpolate (a, b) (c, d) x = Some (c + (x - a))"
proof -
  have "((x - a) * (d - c)) div (b - a) = x - a"
    using assms by simp
  with assms show ?thesis by (simp add: interpolate_def)
qed

lemma roundTrip_equalLength:
  assumes "equalLength m" and "fst (sourceRange m) \<le> offset" and "offset \<le> snd (sourceRange m)"
  shows "mapToGenerated m offset = Some (fst (generatedRange m) + (offset - fst (sourceRange m)))"
    and "roundTrip m offset = Some offset"
proof -
  obtain a b where s: "sourceRange m = (a, b)" by (cases "sourceRange m")
  obtain c d where g: "generatedRange m = (c, d)" by (cases "generatedRange m")
  from assms s g have f: "a < b" "b - a = d - c" "a \<le> offset" "offset \<le> b"
    by (simp_all add: equalLength_def)
  have 1: "mapToGenerated m offset = Some (c + (offset - a))"
    unfolding mapToGenerated_def s g by (rule interpolate_translate [OF f])
  have 2: "mapToOriginal m (c + (offset - a)) = Some (a + (c + (offset - a) - c))"
    unfolding mapToOriginal_def s g using f by (intro interpolate_translate) simp_all
  from 1 show "mapToGenerated m offset = Some (fst (generatedRange m) + (offset - fst (sourceRange m)))"
    by (simp add: s g)
  from 1 2 show "roundTrip m offset = Some offset"
    by (simp add: roundTrip_def)
qed

text \<open>
  Claim C1, amended.  For every entry that \<open>getVirtualFileTSX\<close> builds from the line-mapping
  table (every entry but the whole-document one) and every original offset inside its
  \<open>sourceRange\<close>, the offset translated to the generated text and back through the same
  entry is the offset itself, and translating the result once more gives the same
  generated offset.
\<close>

theorem round_trip_on_table_entries:
  assumes "m \<in> set (tableEntries ext input tsx fileId)"
    and "fst (sourceRange m) \<le> offset" and "offset \<le> snd (sourceRange m)"
  shows "roundTrip m offset = Some offset
         \<and> Option.bind (roundTrip m offset) (mapToGenerated m) = mapToGenerated m offset"
  using roundTrip_equalLength(2) [OF tableEntries_equalLength [OF assms(1)] assms(2,3)]
  by simp

theorem round_trip_on_table_entries_witness:
  "hd (tableEntries (sampleCollaborators None) ''hello'' (sampleTSX ''he;'' ''AAAA,E'') ''index.astro'')
     = \<lparr>sourceRange = (0, 2), generatedRange = (0, 2), data = \<lparr>formattingEdits = Some False\<rparr>\<rparr>
   \<and> roundTrip (hd (tableEntries (sampleCollaborators None) ''hello'' (sampleTSX ''he;'' ''AAAA,E'') ''index.astro'')) 1
     = Some 1"
proof -
  let ?te = "tableEntries (sampleCollaborators None) ''hello'' (sampleTSX ''he;'' ''AAAA,E'') ''index.astro''"
  have v: "?te = [\<lparr>sourceRange = (0, 2), generatedRange = (0, 2), data = \<lparr>formattingEdits = Some False\<rparr>\<rparr>]"
    by code_simp
  have m: "hd ?te \<in> set ?te" and r: "fst (sourceRange (hd ?te)) \<le> 1" "1 \<le> snd (sourceRange (hd ?te))"
    and h: "hd ?te = \<lparr>sourceRange = (0, 2), generatedRange = (0, 2), data = \<lparr>formattingEdits = Some False\<rparr>\<rparr>"
    unfolding v by simp_all
  from round_trip_on_table_entries [OF m r] have "roundTrip (hd ?te) 1 = Some 1"
    by (rule conjunct1)
  with h show ?thesis by (rule conjI)
qed

text \<open>
  The claim as stated fails on the whole-document entry, whose ranges differ in length:
  in the sample it maps \<open>[0, 5]\<close> to \<open>[0, 3]\<close>, and the offset 1 comes back as 0.
\<close>

theorem round_trip_fails_on_final_entry:
  "mappings (getVirtualFileTSX (sampleCollaborators None) ''hello'' (sampleTSX ''he;'' ''AAAA,E'') ''index.astro'') ! 1
     = \<lparr>sourceRange = (0, 5), generatedRange = (0, 3), data = \<lparr>formattingEdits = Some False\<rparr>\<rparr>
   \<and> mapToGenerated
        (mappings (getVirtualFileTSX (sampleCollaborators None) ''hello'' (sampleTSX ''he;'' ''AAAA,E'') ''index.astro'') ! 1) 1
     = Some 0
   \<and> roundTrip
        (mappings (getVirtualFileTSX (sampleCollaborators None) ''hello'' (sampleTSX ''he;'' ''AAAA,E'') ''index.astro'') ! 1) 1
     = Some 0"
  by code_simp

section \<open>Equal text under the entries built from the table\<close>








section \<open>The order of the entries built from the table\<close>

lemma addMapping_order:
  assumes sorted: "sorted_wrt generatedBefore ms"
    and bound: "\<forall>m \<in> set ms. fst (generatedRange m) < snd (generatedRange m)
                  \<and> snd (generatedRange m) \<le> genOffset cur"
    and len: "0 < len" and g1: "genOffset cur + len \<le> g1"
  shows "sorted_wrt generatedBefore (addMapping ms cur len)
         \<and> (\<forall>m \<in> set (addMapping ms cur len).
               fst (generatedRange m) < snd (generatedRange m) \<and> snd (generatedRange m) \<le> g1)"
proof (cases "ms \<noteq> [] \<and> snd (generatedRange (last ms)) = genOffset cur
                \<and> snd (sourceRange (last ms)) = sourceOffset cur")
  case False
  then have a: "addMapping ms cur len =
      ms @ [\<lparr>sourceRange = (sourceOffset cur, sourceOffset cur + len),
             generatedRange = (genOffset cur, genOffset cur + len),
             data = \<lparr>formattingEdits = None\<rparr>\<rparr>]"
    by (auto simp: addMapping_def)
  show ?thesis
    unfolding a using sorted bound len g1
    by (auto simp: sorted_wrt_append generatedBefore_def)
next
  case True
  define l' where "l' = (last ms)
      \<lparr>generatedRange := (fst (generatedRange (last ms)), genOffset cur + len),
       sourceRange := (fst (sourceRange (last ms)), sourceOffset cur + len)\<rparr>"
  from True have a: "addMapping ms cur len = butlast ms @ [l']"
    by (simp add: addMapping_def l'_def)
  from True have ms: "ms = butlast ms @ [last ms]" by simp
  from sorted ms have sb: "sorted_wrt generatedBefore (butlast ms)"
    and bl: "\<forall>x \<in> set (butlast ms). generatedBefore x (last ms)"
    by (metis sorted_wrt_append, metis sorted_wrt_append list.set_intros(1))
  have fl: "fst (generatedRange l') = fst (generatedRange (last ms))"
    and sl: "snd (generatedRange l') = genOffset cur + len"
    by (simp_all add: l'_def)
  from True have "last ms \<in> set ms" by simp
  with bound have lastb: "fst (generatedRange (last ms)) < snd (generatedRange (last ms))"
    by blast
  have 1: "sorted_wrt generatedBefore (butlast ms @ [l'])"
    using sb bl fl by (simp add: sorted_wrt_append generatedBefore_def)
  have 2: "\<forall>m \<in> set (butlast ms @ [l']).
               fst (generatedRange m) < snd (generatedRange m) \<and> snd (generatedRange m) \<le> g1"
  proof
    fix m assume "m \<in> set (butlast ms @ [l'])"
    then consider "m \<in> set ms" | "m = l'" by (auto dest: in_set_butlastD)
    then show "fst (generatedRange m) < snd (generatedRange m) \<and> snd (generatedRange m) \<le> g1"
    proof cases
      case 1
      with bound len g1 show ?thesis by fastforce
    next
      case 2
      with fl sl lastb True len g1 show ?thesis by simp
    qed
  qed
  from 1 2 show ?thesis unfolding a by simp
qed

lemma segmentStep_order:
  assumes inv: "orderInvariant b st"
    and le: "b \<le> TextDocument_offsetAt ext code1 \<lparr>line = genLine, character = segment0 segment\<rparr>"
  shows "orderInvariant
           (TextDocument_offsetAt ext code1 \<lparr>line = genLine, character = segment0 segment\<rparr>)
           (segmentStep ext input code1 genLine st segment)"
proof (cases st)
  case (Pair ms cur)
  define g1 where "g1 = TextDocument_offsetAt ext code1 \<lparr>line = genLine, character = segment0 segment\<rparr>"
  define ms2 where "ms2 =
     (case cur of
        Some c \<Rightarrow> (if matchedLength input code1 c g1 > 0
                   then addMapping ms c (matchedLength input code1 c g1) else ms)
      | None \<Rightarrow> ms)"
  from inv Pair have sorted: "sorted_wrt generatedBefore ms"
    and bound: "\<forall>m \<in> set ms. fst (generatedRange m) < snd (generatedRange m)
                  \<and> snd (generatedRange m) \<le> b"
    and cur: "\<forall>c. cur = Some c \<longrightarrow> genOffset c = b"
    by (simp_all add: orderInvariant_def)
  have ms2: "sorted_wrt generatedBefore ms2
             \<and> (\<forall>m \<in> set ms2. fst (generatedRange m) < snd (generatedRange m)
                    \<and> snd (generatedRange m) \<le> g1)"
  proof (cases cur)
    case None
    with sorted bound le show ?thesis by (fastforce simp: ms2_def g1_def)
  next
    case (Some c)
    with cur have c: "genOffset c = b" by simp
    show ?thesis
    proof (cases "matchedLength input code1 c g1 > 0")
      case False
      with Some sorted bound le show ?thesis by (fastforce simp: ms2_def g1_def)
    next
      case True
      with matchedLength_le_span [of input code1 c g1]
      have "genOffset c + matchedLength input code1 c g1 \<le> g1"
        by (simp add: max_def split: if_splits)
      from addMapping_order [OF sorted bound [folded c] True this] True Some
      show ?thesis by (simp add: ms2_def)
    qed
  qed
  have step: "segmentStep ext input code1 genLine st segment =
     (case (segment2 segment, segment3 segment) of
        (Some l, Some c) \<Rightarrow>
          (ms2, Some \<lparr>genOffset = g1,
                      sourceOffset = TextDocument_offsetAt ext input \<lparr>line = l, character = c\<rparr>\<rparr>)
      | _ \<Rightarrow> (ms2, None))"
    unfolding Pair segmentStep_def Let_def g1_def [symmetric]
    by (cases cur; cases "segment2 segment"; cases "segment3 segment") (simp_all add: ms2_def)
  show ?thesis unfolding step g1_def [symmetric]
    using ms2 by (simp add: orderInvariant_def split: option.splits)
qed

lemma foldl_segmentStep_order:
  assumes "sorted (b # map (\<lambda>segment. TextDocument_offsetAt ext code1 \<lparr>line = genLine, character = segment0 segment\<rparr>) segments)"
    and "orderInvariant b st"
  shows "orderInvariant
           (last (b # map (\<lambda>segment. TextDocument_offsetAt ext code1 \<lparr>line = genLine, character = segment0 segment\<rparr>) segments))
           (foldl (segmentStep ext input code1 genLine) st segments)"
  using assms
proof (induction segments arbitrary: b st)
  case Nil
  then show ?case by simp
next
  case (Cons segment segments)
  define g where "g = TextDocument_offsetAt ext code1 \<lparr>line = genLine, character = segment0 segment\<rparr>"
  from Cons.prems(1) have le: "b \<le> g"
    and s: "sorted (g # map (\<lambda>segment. TextDocument_offsetAt ext code1 \<lparr>line = genLine, character = segment0 segment\<rparr>) segments)"
    by (simp_all add: g_def)
  from segmentStep_order [OF Cons.prems(2) le [unfolded g_def], of input]
  have "orderInvariant g (segmentStep ext input code1 genLine st segment)"
    by (simp add: g_def)
  from Cons.IH [OF s this] show ?case by (simp add: g_def)
qed

lemma lineLoop_order:
  assumes "sorted (b # generatedOffsets ext code1 genLine v3)" and "orderInvariant b st"
  shows "\<exists>b'. orderInvariant b' (lineLoop ext input code1 genLine v3 st)"
  using assms
proof (induction v3 arbitrary: genLine b st)
  case Nil
  then show ?case by auto
next
  case (Cons segments rest)
  define gs where "gs = map (\<lambda>segment. TextDocument_offsetAt ext code1 \<lparr>line = genLine, character = segment0 segment\<rparr>) segments"
  define b1 where "b1 = last (b # gs)"
  from Cons.prems(1) have all: "sorted ((b # gs) @ generatedOffsets ext code1 (genLine + 1) rest)"
    by (simp add: gs_def)
  then have s1: "sorted (b # gs)"
    and s2: "sorted (generatedOffsets ext code1 (genLine + 1) rest)"
    and s3: "\<forall>x \<in> set (b # gs). \<forall>y \<in> set (generatedOffsets ext code1 (genLine + 1) rest). x \<le> y"
    unfolding sorted_append by blast+
  have "b1 \<in> set (b # gs)" unfolding b1_def by (rule last_in_set) simp
  with s2 s3 have s4: "sorted (b1 # generatedOffsets ext code1 (genLine + 1) rest)"
    by auto
  from foldl_segmentStep_order [OF s1 [unfolded gs_def] Cons.prems(2), of input]
  have "orderInvariant b1 (foldl (segmentStep ext input code1 genLine) st segments)"
    by (simp add: b1_def gs_def)
  from Cons.IH [OF s4 this] show ?case by simp
qed

lemma tableMappings_order:
  assumes "sorted (generatedOffsets ext (patchTSX ext (code tsx) fileId) 0
                     (decode ext (sm_mappings (tsx_map tsx))))"
  shows "sorted_wrt generatedBefore (tableMappings ext input tsx fileId)
         \<and> (\<forall>m \<in> set (tableMappings ext input tsx fileId).
               fst (generatedRange m) < snd (generatedRange m))"
proof -
  define offs where "offs = generatedOffsets ext (patchTSX ext (code tsx) fileId) 0
                     (decode ext (sm_mappings (tsx_map tsx)))"
  define b where "b = (case offs of [] \<Rightarrow> 0 | x # _ \<Rightarrow> x)"
  have "sorted (b # offs)"
    using assms by (cases offs) (simp_all add: b_def offs_def)
  moreover have "orderInvariant b ([], None)"
    by (simp add: orderInvariant_def)
  ultimately obtain b' where "orderInvariant b'
      (lineLoop ext input (patchTSX ext (code tsx) fileId) 0
         (decode ext (sm_mappings (tsx_map tsx))) ([], None))"
    using lineLoop_order [of b ext "patchTSX ext (code tsx) fileId" 0
        "decode ext (sm_mappings (tsx_map tsx))" "([], None)" input]
    by (auto simp: offs_def)
  then show ?thesis
    by (auto simp: orderInvariant_def tableMappings_def)
qed

lemma generatedBefore_disableFormatting [simp]:
  "generatedBefore (disableFormatting m1) (disableFormatting m2) = generatedBefore m1 m2"
  by (simp add: generatedBefore_def disableFormatting_def)

lemma sorted_wrt_map_disableFormatting:
  "sorted_wrt generatedBefore (map disableFormatting ms) = sorted_wrt generatedBefore ms"
  by (simp add: sorted_wrt_map)

text \<open>
  The generated offsets never decrease when the text document's \<open>offsetAt\<close> is monotone
  in the position and every line of the table lists its segments by ascending column.
\<close>

lemma generatedOffsets_lines:
  assumes "x \<in> set (generatedOffsets ext code1 genLine v3)"
  shows "\<exists>p. genLine \<le> line p \<and> x = TextDocument_offsetAt ext code1 p"
  using assms
proof (induction v3 arbitrary: genLine)
  case Nil
  then show ?case by simp
next
  case (Cons segments rest)
  from Cons.prems consider
      (here) "x \<in> (\<lambda>segment. TextDocument_offsetAt ext code1 \<lparr>line = genLine, character = segment0 segment\<rparr>) ` set segments"
    | (later) "x \<in> set (generatedOffsets ext code1 (genLine + 1) rest)"
    by auto
  then show ?case
  proof cases
    case here
    then obtain segment where "x = TextDocument_offsetAt ext code1 \<lparr>line = genLine, character = segment0 segment\<rparr>"
      by blast
    then show ?thesis by (intro exI [of _ "\<lparr>line = genLine, character = segment0 segment\<rparr>"]) simp
  next
    case later
    from Cons.IH [OF later] obtain p where "genLine + 1 \<le> line p" "x = TextDocument_offsetAt ext code1 p"
      by blast
    then show ?thesis by (intro exI [of _ p]) simp
  qed
qed

lemma generatedOffsets_sorted:
  assumes mono: "\<And>p q. line p < line q \<or> (line p = line q \<and> character p \<le> character q)
                   \<Longrightarrow> TextDocument_offsetAt ext code1 p \<le> TextDocument_offsetAt ext code1 q"
    and cols: "\<forall>segments \<in> set v3. sorted (map segment0 segments)"
  shows "sorted (generatedOffsets ext code1 genLine v3)"
  using cols
proof (induction v3 arbitrary: genLine)
  case Nil
  then show ?case by simp
next
  case (Cons segments rest)
  have 1: "sorted (map (\<lambda>segment. TextDocument_offsetAt ext code1 \<lparr>line = genLine, character = segment0 segment\<rparr>) segments)"
  proof -
    from Cons.prems have "sorted (map segment0 segments)" by simp
    then show ?thesis
    proof (induction segments)
      case Nil
      then show ?case by simp
    next
      case (Cons s ss)
      then show ?case by (auto intro!: mono)
    qed
  qed
  have 2: "sorted (generatedOffsets ext code1 (genLine + 1) rest)"
    using Cons.IH Cons.prems by simp
  have 3: "\<forall>x \<in> set (map (\<lambda>segment. TextDocument_offsetAt ext code1 \<lparr>line = genLine, character = segment0 segment\<rparr>) segments).
           \<forall>y \<in> set (generatedOffsets ext code1 (genLine + 1) rest). x \<le> y"
  proof (intro ballI)
    fix x y
    assume "x \<in> set (map (\<lambda>segment. TextDocument_offsetAt ext code1 \<lparr>line = genLine, character = segment0 segment\<rparr>) segments)"
      and y: "y \<in> set (generatedOffsets ext code1 (genLine + 1) rest)"
    then obtain segment where x: "x = TextDocument_offsetAt ext code1 \<lparr>line = genLine, character = segment0 segment\<rparr>"
      by auto
    from generatedOffsets_lines [OF y] obtain q where q: "genLine + 1 \<le> line q" "y = TextDocument_offsetAt ext code1 q"
      by blast
    show "x \<le> y" unfolding x q(2) using q(1) by (intro mono) simp
  qed
  from 1 2 3 show ?case by (simp add: sorted_append)
qed

text \<open>
  Claim C8, amended.  When the generated offsets of the segments of the table never
  decrease in the order of the table, the entries built from the table (all but the
  whole-document entry) are ordered and do not overlap: of two of them, the earlier ends
  in the generated text where the later starts or before, and neither is empty.
\<close>

theorem table_entries_ordered:
  assumes "sorted (generatedOffsets ext (snapshot_text (getVirtualFileTSX ext input tsx fileId)) 0
                     (decode ext (sm_mappings (tsx_map tsx))))"
    and "i < j" and "j < length (tableEntries ext input tsx fileId)"
  shows "snd (generatedRange (tableEntries ext input tsx fileId ! i))
           \<le> fst (generatedRange (tableEntries ext input tsx fileId ! j))
         \<and> fst (generatedRange (tableEntries ext input tsx fileId ! i))
           < snd (generatedRange (tableEntries ext input tsx fileId ! i))
         \<and> fst (generatedRange (tableEntries ext input tsx fileId ! j))
           < snd (generatedRange (tableEntries ext input tsx fileId ! j))"
proof -
  from tableMappings_order [OF assms(1) [unfolded getVirtualFileTSX_text], of input]
  have s: "sorted_wrt generatedBefore (tableEntries ext input tsx fileId)"
    and n: "\<forall>m \<in> set (tableEntries ext input tsx fileId).
               fst (generatedRange m) < snd (generatedRange m)"
    by (simp_all add: tableEntries_eq sorted_wrt_map_disableFormatting disableFormatting_def)
  from sorted_wrt_nth_less [OF s assms(2,3)]
  have "generatedBefore (tableEntries ext input tsx fileId ! i) (tableEntries ext input tsx fileId ! j)" .
  moreover from n assms(2,3)
  have "fst (generatedRange (tableEntries ext input tsx fileId ! i))
           < snd (generatedRange (tableEntries ext input tsx fileId ! i))"
    and "fst (generatedRange (tableEntries ext input tsx fileId ! j))
           < snd (generatedRange (tableEntries ext input tsx fileId ! j))"
    by simp_all
  ultimately show ?thesis by (simp add: generatedBefore_def)
qed

theorem table_entries_ordered_witness:
  "generatedOffsets (sampleCollaborators None)
     (snapshot_text (getVirtualFileTSX (sampleCollaborators None) ''ab cd''
        (sampleTSX ''ab;cd;'' ''AAAA,E,CAAG,E'') ''index.astro'')) 0
     (decode (sampleCollaborators None) (sm_mappings (tsx_map (sampleTSX ''ab;cd;'' ''AAAA,E,CAAG,E''))))
     = [0, 2, 3, 5]
   \<and> map generatedRange
        (tableEntries (sampleCollaborators None) ''ab cd''
           (sampleTSX ''ab;cd;'' ''AAAA,E,CAAG,E'') ''index.astro'')
     = [(0, 2), (3, 5)]
   \<and> snd (generatedRange
        (tableEntries (sampleCollaborators None) ''ab cd''
           (sampleTSX ''ab;cd;'' ''AAAA,E,CAAG,E'') ''index.astro'' ! 0))
      \<le> fst (generatedRange
        (tableEntries (sampleCollaborators None) ''ab cd''
           (sampleTSX ''ab;cd;'' ''AAAA,E,CAAG,E'') ''index.astro'' ! 1))"
proof -
  let ?ext = "sampleCollaborators None"
  let ?tsx = "sampleTSX ''ab;cd;'' ''AAAA,E,CAAG,E''"
  let ?offs = "generatedOffsets ?ext
     (snapshot_text (getVirtualFileTSX ?ext ''ab cd'' ?tsx ''index.astro'')) 0
     (decode ?ext (sm_mappings (tsx_map ?tsx)))"
  let ?te = "tableEntries ?ext ''ab cd'' ?tsx ''index.astro''"
  have o: "?offs = [0, 2, 3, 5]"
    by code_simp
  have s: "sorted ?offs"
    unfolding o by simp
  have r: "map generatedRange ?te = [(0, 2), (3, 5)]"
    by code_simp
  have "length (map generatedRange ?te) = 2"
    unfolding r by simp
  then have l: "1 < length ?te"
    by simp
  have z: "(0::nat) < 1" by simp
  from table_entries_ordered [OF s z l]
  have "snd (generatedRange (?te ! 0)) \<le> fst (generatedRange (?te ! 1))"
    by (rule conjunct1)
  with o r show ?thesis by blast
qed

text \<open>
  The claim as stated fails on the whole-document entry: in the sample the entry built from
  the table covers \<open>[0, 2]\<close> of the generated text and the whole-document entry covers
  \<open>[0, 3]\<close>, so the generated offset 1 lies in both.
\<close>

theorem final_entry_overlaps_table_entry:
  "map generatedRange
     (mappings (getVirtualFileTSX (sampleCollaborators None) ''hello''
        (sampleTSX ''he;'' ''AAAA,E'') ''index.astro''))
   = [(0, 2), (0, 3)]"
  by code_simp

section \<open>The frontmatter scan\<close>

lemma indexOfFrom_ge: "indexOfFrom pat s from = Some j \<Longrightarrow> from \<le> j"
  by (auto simp: indexOfFrom_def)

lemma point_offset_pointAt [simp]: "point_offset (pointAt s n) = int n"
  by (simp add: pointAt_def Let_def)

lemma scan_cases:
  "scan T = Absent \<or> (\<exists>p. scan T = Open p)
   \<or> (\<exists>p q. scan T = Closed p q \<and> point_offset p < point_offset q)"
proof (cases "indexOfFrom delimiter T 0")
  case None
  then show ?thesis by (simp add: scan_def)
next
  case (Some i)
  show ?thesis
  proof (cases "indexOfFrom delimiter T (i + 3)")
    case None
    with Some show ?thesis by (simp add: scan_def)
  next
    case j: (Some j)
    from indexOfFrom_ge [OF j] have "i < j + 3" by simp
    with Some j show ?thesis by (simp add: scan_def)
  qed
qed

lemma scan_closed_example:
  "scan (''---'' @ [LF] @ ''--- <div>Astro!</div>'')
     = Closed \<lparr>point_line = 1, point_column = 1, point_offset = 0\<rparr>
              \<lparr>point_line = 2, point_column = 4, point_offset = 7\<rparr>"
  by code_simp

lemma scan_open_example:
  "scan (''---'' @ [LF] @ ''<div>Astro!</div>'')
     = Open \<lparr>point_line = 1, point_column = 1, point_offset = 0\<rparr>"
  by code_simp

lemma scan_absent_example: "scan ''<div>Astro!</div>'' = Absent"
  by code_simp

text \<open>
  Claim C6.  The scan returns, for every text, one of the three states; when the state is
  closed, the offset recorded for the closing delimiter is greater than the offset
  recorded for the opening one.  The three documents of the test are closed with the
  closing delimiter ending at offset 7, open, and without frontmatter.
\<close>

theorem scan_total_three_states:
  "(scan T = Absent \<or> (\<exists>p. scan T = Open p)
    \<or> (\<exists>p q. scan T = Closed p q \<and> point_offset p < point_offset q))
   \<and> scan (''---'' @ [LF] @ ''--- <div>Astro!</div>'')
       = Closed \<lparr>point_line = 1, point_column = 1, point_offset = 0\<rparr>
                \<lparr>point_line = 2, point_column = 4, point_offset = 7\<rparr>
   \<and> scan (''---'' @ [LF] @ ''<div>Astro!</div>'')
       = Open \<lparr>point_line = 1, point_column = 1, point_offset = 0\<rparr>
   \<and> scan ''<div>Astro!</div>'' = Absent"
  using scan_cases [of T] scan_closed_example scan_open_example scan_absent_example
  by blast

section \<open>Extraction of style blocks\<close>




text \<open>
  The older utility \<open>extractTags\<close> is called by nothing among the source files.  On the same
  document it returns the style element at the top level only: it walks below the first
  root only when no root is a style element.
\<close>

lemma extractTags_returns_only_top_level_style:
  "map container (extractTags parseHtml styleDoc ''style'' (Some styleRoots)) = [(0, 31)]
   \<and> length (extractTags parseHtml styleDoc ''style'' (Some styleRoots)) = 1"
  by code_simp

end
